theory Spec2Isabelle
  imports Complex_Main
begin

section \<open>The reactor's watchers: Timer, WriteWatcher, Synchronizer\<close>

text \<open>
  The classes of \<^verbatim>\<open>include/timer.h\<close>, \<^verbatim>\<open>include/watchers/write.h\<close> and
  \<^verbatim>\<open>include/synchronizer.h\<close> are embedded by explicit state passing. A member
  function that returns \<^verbatim>\<open>bool\<close> and mutates the object becomes a function from
  the object to a pair of the result and the new object. The object carries the state of
  the loop it points to, so that a call on the loop's multiplexer is an update of that
  part of the state.

  \<^verbatim>\<open>Timestamp\<close> is declared outside the given sources; it is the type parameter
  \<open>'t\<close>. The definitions use only the operations the code applies to it
  (\<open>+\<close>, \<open>-\<close>, \<open><\<close>, \<open>\<le>\<close> and the literal \<open>0.0\<close>), and the theorems about
  the code hold for every such type. In the library a timestamp is a C++
  \<^verbatim>\<open>double\<close>; the type \<open>double\<close> below gives its rounded arithmetic, for the
  inputs at which rounding decides what the code does.
\<close>

subsection \<open>The loop and the external multiplexer\<close>

text \<open>
  The calls on the multiplexer that the three classes issue on their loop.
  (\<^verbatim>\<open>ev_timer_set\<close> is a macro that writes the watcher structure; it is no call on
  the loop.)
\<close>

datatype ev_call =
    Ev_timer_start
  | Ev_timer_stop
  | Ev_io_start
  | Ev_io_stop
  | Ev_async_send

text \<open>
  \<^verbatim>\<open>struct ev_timer\<close> and \<^verbatim>\<open>struct ev_io\<close>, as far as the classes configure them:
  the relative timeout and the repeat value written by \<^verbatim>\<open>ev_timer_set\<close>, the file
  descriptor and the event mask written when the io watcher is initialised.
\<close>

record 't ev_timer =
  after :: 't
  repeat :: 't

record ev_io =
  fd :: int
  events :: int

text \<open>
  Modelled from the spec: \<^verbatim>\<open>class Loop\<close> is declared outside the given sources.
  \<^verbatim>\<open>Loop::now()\<close> "returns the loop's cached notion of current monotonic time, valid
  for the duration of one dispatch cycle": it reads the field \<open>now\<close>. The record is
  the loop as seen from one watcher: besides the cached time, the calls issued on the
  multiplexer so far, in the order issued, and what the multiplexer currently holds for
  the watcher: the relative deadline of its timer (\<open>None\<close> when no deadline is
  registered), the io interest (\<open>None\<close> when the descriptor is not watched), and
  whether a wake-up has been sent and not yet dispatched.
\<close>

record 't Loop =
  now :: 't
  calls :: "ev_call list"
  deadline :: "'t option"
  io :: "ev_io option"
  wake :: bool

text \<open>
  Modelled from the spec: the multiplexer is an external collaborator (libev) that
  exposes "register a relative deadline", "register fd for read/write interest" and
  "send an async wake signal"; at most one physical deadline is registered per timer at
  a time. Starting a watcher that is already started changes nothing, stopping one
  removes the registration, and several wake-ups before the next dispatch coalesce.
\<close>

definition ev_timer_set :: "'t ev_timer \<Rightarrow> 't \<Rightarrow> 't \<Rightarrow> 't ev_timer" where
  "ev_timer_set w a r = w\<lparr>after := a, repeat := r\<rparr>"

definition ev_timer_start :: "'t Loop \<Rightarrow> 't ev_timer \<Rightarrow> 't Loop" where
  "ev_timer_start l w =
     l\<lparr>calls := calls l @ [Ev_timer_start],
       deadline := (case deadline l of None \<Rightarrow> Some (after w) | Some d \<Rightarrow> Some d)\<rparr>"

definition ev_timer_stop :: "'t Loop \<Rightarrow> 't ev_timer \<Rightarrow> 't Loop" where
  "ev_timer_stop l w = l\<lparr>calls := calls l @ [Ev_timer_stop], deadline := None\<rparr>"

definition ev_io_start :: "'t Loop \<Rightarrow> ev_io \<Rightarrow> 't Loop" where
  "ev_io_start l w =
     l\<lparr>calls := calls l @ [Ev_io_start],
       io := (case io l of None \<Rightarrow> Some w | Some x \<Rightarrow> Some x)\<rparr>"

definition ev_io_stop :: "'t Loop \<Rightarrow> ev_io \<Rightarrow> 't Loop" where
  "ev_io_stop l w = l\<lparr>calls := calls l @ [Ev_io_stop], io := None\<rparr>"

definition ev_async_send :: "'t Loop \<Rightarrow> 't Loop" where
  "ev_async_send l = l\<lparr>calls := calls l @ [Ev_async_send], wake := True\<rparr>"

subsection \<open>Timer\<close>

text \<open>
  The fields \<^verbatim>\<open>_loop\<close>, \<^verbatim>\<open>_watcher\<close>, \<^verbatim>\<open>_active\<close> and \<^verbatim>\<open>_expire\<close> of
  \<^verbatim>\<open>class Timer\<close>. \<open>t_fired\<close> is a ghost field: the number of times the object has
  called \<^verbatim>\<open>_callback\<close>. The callback itself, a \<^verbatim>\<open>std::function\<close> that receives the
  timer, is a function on the timer's state and a parameter of \<open>Timer_invoke\<close>.
\<close>

record 't Timer =
  t_loop :: "'t Loop"
  t_watcher :: "'t ev_timer"
  t_active :: bool
  t_expire :: 't
  t_fired :: nat

type_synonym 't TimerCallback = "'t Timer \<Rightarrow> 't Timer"

definition Timer_start :: "'t Timer \<Rightarrow> bool \<times> 't Timer" where
  "Timer_start t =
     (if t_active t then (False, t)
      else (True, t\<lparr>t_loop := ev_timer_start (t_loop t) (t_watcher t), t_active := True\<rparr>))"

definition Timer_cancel :: "'t Timer \<Rightarrow> bool \<times> 't Timer" where
  "Timer_cancel t =
     (if \<not> t_active t then (False, t)
      else (True, t\<lparr>t_loop := ev_timer_stop (t_loop t) (t_watcher t), t_active := False\<rparr>))"

definition Timer_set :: "'t::{plus,ord,zero} \<Rightarrow> 't Timer \<Rightarrow> bool \<times> 't Timer" where
  "Timer_set timeout t =
     (if t_active t \<and> now (t_loop t) + timeout < t_expire t
      then (True, t\<lparr>t_expire := now (t_loop t) + timeout\<rparr>)
      else
        let t1 = snd (Timer_cancel t);
            t2 = t1\<lparr>t_watcher := ev_timer_set (t_watcher t1) timeout 0\<rparr>;
            t3 = t2\<lparr>t_expire := now (t_loop t2) + timeout\<rparr>
        in Timer_start t3)"

definition Timer_invoke ::
  "'t::{plus,minus,ord,zero} TimerCallback \<Rightarrow> 't Timer \<Rightarrow> 't Timer" where
  "Timer_invoke callback t =
     (if t_expire t \<le> now (t_loop t)
      then callback (t\<lparr>t_active := False, t_fired := Suc (t_fired t)\<rparr>)
      else snd (Timer_set (t_expire t - now (t_loop t)) t))"

text \<open>
  The constructor. The object's storage \<open>raw\<close> holds whatever the memory held for
  \<^verbatim>\<open>_watcher\<close> and \<^verbatim>\<open>_expire\<close>; \<^verbatim>\<open>_loop\<close> is bound to the loop and
  \<^verbatim>\<open>_active\<close> starts as false (its default member initialiser). \<^verbatim>\<open>initialize\<close>
  is declared in the class and defined outside the given sources, so it is a parameter.
  The destructor calls \<^verbatim>\<open>cancel()\<close>.
\<close>

definition Timer_ctor ::
  "('t \<Rightarrow> 't Timer \<Rightarrow> 't Timer) \<Rightarrow> 't Timer \<Rightarrow> 't Loop \<Rightarrow> 't \<Rightarrow> 't Timer" where
  "Timer_ctor initialize raw loop timeout =
     (let t0 = raw\<lparr>t_loop := loop, t_active := False, t_fired := 0\<rparr>;
          t1 = initialize timeout t0
      in snd (Timer_start t1))"

definition Timer_dtor :: "'t Timer \<Rightarrow> 't Timer" where
  "Timer_dtor t = snd (Timer_cancel t)"

text \<open>
  Modelled from the spec: \<^verbatim>\<open>Timer::initialize\<close> is defined in a file that is not
  among the sources. "Construction arms the timer for a relative timeout", and the
  expire time of an armed timer is meaningful: the watcher is configured for the timeout,
  as a one-shot, and the expire time is recorded.
\<close>

definition Timer_initialize :: "'t::{plus,zero} \<Rightarrow> 't Timer \<Rightarrow> 't Timer" where
  "Timer_initialize timeout t =
     t\<lparr>t_watcher := ev_timer_set (t_watcher t) timeout 0,
       t_expire := now (t_loop t) + timeout\<rparr>"

text \<open>
  Modelled from the spec: the loop waits on the multiplexer and dispatches the
  \<^verbatim>\<open>invoke\<close> of each ready watcher; the function that the multiplexer calls back for
  a timer is defined outside the given sources (for an io watcher it is \<^verbatim>\<open>onActive\<close>
  of \<^verbatim>\<open>reader.cpp\<close>, which calls \<^verbatim>\<open>invoke()\<close> and nothing else). A Timer is a
  "single-shot deadline watcher", configured with repeat \<open>0.0\<close>, and a loop with one
  Timer returns from \<^verbatim>\<open>run()\<close> once it has fired: when the multiplexer reports the
  deadline, the deadline is no longer registered, and then \<^verbatim>\<open>invoke\<close> runs. A timer
  with no registered deadline is not reported. The model does not ask that the time has
  reached the deadline, so it covers every moment at which the report can come.
\<close>

definition Timer_dispatch ::
  "'t::{plus,minus,ord,zero} TimerCallback \<Rightarrow> 't Timer \<Rightarrow> 't Timer" where
  "Timer_dispatch callback t =
     (case deadline (t_loop t) of
        None \<Rightarrow> t
      | Some d \<Rightarrow> Timer_invoke callback (t\<lparr>t_loop := (t_loop t)\<lparr>deadline := None\<rparr>\<rparr>))"

text \<open>
  What user code can do with a timer: call its public member functions. A callback that
  is a sequence of such calls, and a history of a timer: calls from user code, the loop
  updating its cached time, and the multiplexer reporting the deadline.
\<close>

datatype 't TimerCall = Call_start | Call_cancel | Call_set 't

fun Timer_call :: "'t::{plus,ord,zero} TimerCall \<Rightarrow> 't Timer \<Rightarrow> 't Timer" where
  "Timer_call Call_start t = snd (Timer_start t)"
| "Timer_call Call_cancel t = snd (Timer_cancel t)"
| "Timer_call (Call_set timeout) t = snd (Timer_set timeout t)"

definition Timer_script :: "'t::{plus,ord,zero} TimerCall list \<Rightarrow> 't TimerCallback" where
  "Timer_script cs t = fold Timer_call cs t"

datatype 't TimerEvent = User "'t TimerCall" | Tick 't | Expired

fun Timer_event ::
  "'t::{plus,minus,ord,zero} TimerCall list \<Rightarrow> 't TimerEvent \<Rightarrow> 't Timer \<Rightarrow> 't Timer" where
  "Timer_event cb (User c) t = Timer_call c t"
| "Timer_event cb (Tick n) t = t\<lparr>t_loop := (t_loop t)\<lparr>now := n\<rparr>\<rparr>"
| "Timer_event cb Expired t = Timer_dispatch (Timer_script cb) t"

definition Timer_run ::
  "'t::{plus,minus,ord,zero} TimerCall list \<Rightarrow> 't TimerEvent list \<Rightarrow> 't Timer \<Rightarrow> 't Timer" where
  "Timer_run cb es t = fold (Timer_event cb) es t"

text \<open>The states of the timer's state machine, read off the active flag.\<close>

datatype TimerState = Idle | Armed

definition Timer_state :: "'t Timer \<Rightarrow> TimerState" where
  "Timer_state t = (if t_active t then Armed else Idle)"

definition Timer_registered :: "'t Timer \<Rightarrow> bool" where
  "Timer_registered t = (deadline (t_loop t) \<noteq> None)"

subsection \<open>WriteWatcher\<close>

text \<open>
  The fields \<^verbatim>\<open>_loop\<close>, \<^verbatim>\<open>_watcher\<close> and \<^verbatim>\<open>_active\<close> of \<^verbatim>\<open>class WriteWatcher\<close>;
  the callback is a parameter of \<open>WriteWatcher_invoke\<close>.
\<close>

record 't WriteWatcher =
  w_loop :: "'t Loop"
  w_watcher :: ev_io
  w_active :: bool

type_synonym 't WriteCallback = "'t WriteWatcher \<Rightarrow> 't WriteWatcher"

definition WriteWatcher_invoke :: "'t WriteCallback \<Rightarrow> 't WriteWatcher \<Rightarrow> 't WriteWatcher" where
  "WriteWatcher_invoke callback w = callback w"

definition WriteWatcher_cancel :: "'t WriteWatcher \<Rightarrow> bool \<times> 't WriteWatcher" where
  "WriteWatcher_cancel w =
     (if \<not> w_active w then (False, w)
      else (True, w\<lparr>w_loop := ev_io_stop (w_loop w) (w_watcher w), w_active := False\<rparr>))"

definition WriteWatcher_resume :: "'t WriteWatcher \<Rightarrow> bool \<times> 't WriteWatcher" where
  "WriteWatcher_resume w =
     (if w_active w then (False, w)
      else (True, w\<lparr>w_loop := ev_io_start (w_loop w) (w_watcher w), w_active := True\<rparr>))"

definition WriteWatcher_dtor :: "'t WriteWatcher \<Rightarrow> 't WriteWatcher" where
  "WriteWatcher_dtor w = snd (WriteWatcher_cancel w)"

definition WriteWatcher_registered :: "'t WriteWatcher \<Rightarrow> bool" where
  "WriteWatcher_registered w = (io (w_loop w) \<noteq> None)"

subsection \<open>Synchronizer\<close>

text \<open>
  Of \<^verbatim>\<open>class Synchronizer\<close> the two member functions need the loop only;
  \<^verbatim>\<open>ev_async_send\<close> marks the wake-up in the loop.
\<close>

record 't Synchronizer =
  s_loop :: "'t Loop"

definition Synchronizer_synchronize :: "'t Synchronizer \<Rightarrow> bool \<times> 't Synchronizer" where
  "Synchronizer_synchronize s = (True, s\<lparr>s_loop := ev_async_send (s_loop s)\<rparr>)"

definition Synchronizer_call :: "'t Synchronizer \<Rightarrow> bool \<times> 't Synchronizer" where
  "Synchronizer_call s = Synchronizer_synchronize s"

subsection \<open>Invariants\<close>

text \<open>
  The registration follows the active flag: a deadline (an io interest) is registered
  with the multiplexer exactly when the watcher's active flag is set.
\<close>

definition registration_matches :: "'t Timer \<Rightarrow> bool" where
  "registration_matches t = (Timer_registered t = t_active t)"

definition writer_registration_matches :: "'t WriteWatcher \<Rightarrow> bool" where
  "writer_registration_matches w = (WriteWatcher_registered w = w_active w)"

text \<open>
  The callback has been called at most as often as a deadline has been registered, a
  deadline that is still registered not counted.
\<close>

definition fired_within_armings :: "'t Timer \<Rightarrow> bool" where
  "fired_within_armings t =
     (t_fired t + (if Timer_registered t then 1 else 0)
        \<le> count_list (calls (t_loop t)) Ev_timer_start)"

subsection \<open>Example states\<close>

text \<open>
  A loop whose cached time is 10 with nothing registered and the raw storage of a timer
  on it; the timer constructed there with a timeout of 20 (\<open>ex_armed\<close>) and the same
  timer after it has been cancelled (\<open>ex_idle\<close>); the armed timer when the loop's time
  has reached 31 (\<open>ex_elapsed\<close>); the timer as \<^verbatim>\<open>invoke\<close> finds it once the
  multiplexer has reported its deadline, at time 31 (\<open>ex_due\<close>) and at time 25
  (\<open>ex_early\<close>); a write watcher on descriptor 1.
\<close>

definition ex_loop :: "real Loop" where
  "ex_loop = \<lparr>now = 10, calls = [], deadline = None, io = None, wake = False\<rparr>"

definition ex_raw :: "real Timer" where
  "ex_raw = \<lparr>t_loop = ex_loop, t_watcher = \<lparr>after = 0, repeat = 0\<rparr>, t_active = False,
     t_expire = 0, t_fired = 0\<rparr>"

definition ex_armed :: "real Timer" where
  "ex_armed = \<lparr>t_loop = \<lparr>now = 10, calls = [Ev_timer_start], deadline = Some 20, io = None,
       wake = False\<rparr>,
     t_watcher = \<lparr>after = 20, repeat = 0\<rparr>, t_active = True, t_expire = 30, t_fired = 0\<rparr>"

definition ex_idle :: "real Timer" where
  "ex_idle = \<lparr>t_loop = \<lparr>now = 10, calls = [Ev_timer_start, Ev_timer_stop], deadline = None,
       io = None, wake = False\<rparr>,
     t_watcher = \<lparr>after = 20, repeat = 0\<rparr>, t_active = False, t_expire = 30, t_fired = 0\<rparr>"

definition ex_elapsed :: "real Timer" where
  "ex_elapsed = \<lparr>t_loop = \<lparr>now = 31, calls = [Ev_timer_start], deadline = Some 20, io = None,
       wake = False\<rparr>,
     t_watcher = \<lparr>after = 20, repeat = 0\<rparr>, t_active = True, t_expire = 30, t_fired = 0\<rparr>"

definition ex_due :: "real Timer" where
  "ex_due = \<lparr>t_loop = \<lparr>now = 31, calls = [Ev_timer_start], deadline = None, io = None,
       wake = False\<rparr>,
     t_watcher = \<lparr>after = 20, repeat = 0\<rparr>, t_active = True, t_expire = 30, t_fired = 0\<rparr>"

definition ex_early :: "real Timer" where
  "ex_early = \<lparr>t_loop = \<lparr>now = 25, calls = [Ev_timer_start], deadline = None, io = None,
       wake = False\<rparr>,
     t_watcher = \<lparr>after = 20, repeat = 0\<rparr>, t_active = True, t_expire = 30, t_fired = 0\<rparr>"

definition ex_writer :: "real WriteWatcher" where
  "ex_writer = \<lparr>w_loop = \<lparr>now = 10, calls = [Ev_io_start], deadline = None,
       io = Some \<lparr>fd = 1, events = 2\<rparr>, wake = False\<rparr>,
     w_watcher = \<lparr>fd = 1, events = 2\<rparr>, w_active = True\<rparr>"

definition ex_sync :: "real Synchronizer" where
  "ex_sync = \<lparr>s_loop = ex_loop\<rparr>"

subsection \<open>Timestamps as doubles\<close>

text \<open>
  The finite values of IEEE 754 binary64: \<open>Double m e\<close> is the number \<open>m * 2 ^ e\<close>.
  Sums and differences are computed exactly and then rounded once to 53 significant bits,
  to the nearest value, a tie going to the even significand; \<open>canon\<close> gives each value
  one representation (an odd \<open>m\<close>, or \<open>Double 0 0\<close>). Overflow, subnormal numbers,
  infinities and NaN are outside the model.
\<close>

datatype double = Double int int

function canon :: "int \<Rightarrow> int \<Rightarrow> double" where
  "canon m e =
     (if m = 0 then Double 0 0
      else if even m then canon (m div 2) (e + 1)
      else Double m e)"
  by pat_completeness auto
termination
  by (relation "measure (\<lambda>(m, e). nat \<bar>m\<bar>)") auto

fun bits :: "nat \<Rightarrow> nat" where
  "bits n = (if n = 0 then 0 else Suc (bits (n div 2)))"

declare canon.simps [simp del]

declare bits.simps [simp del]

definition round_double :: "int \<Rightarrow> int \<Rightarrow> double" where
  "round_double s e =
     (let n = bits (nat \<bar>s\<bar>) in
      if n \<le> 53 then canon s e
      else
        let k = n - 53;
            q = \<bar>s\<bar> div 2 ^ k;
            r = \<bar>s\<bar> mod 2 ^ k;
            half = 2 ^ (k - 1);
            q' = (if r < half then q else if half < r then q + 1
                  else if even q then q else q + 1)
        in canon (sgn s * q') (e + int k))"

instantiation double :: "{zero,plus,minus,ord}"
begin

definition zero_double :: double where
  "zero_double = Double 0 0"

fun plus_double :: "double \<Rightarrow> double \<Rightarrow> double" where
  "plus_double (Double m1 e1) (Double m2 e2) =
     (let e = min e1 e2
      in round_double (m1 * 2 ^ nat (e1 - e) + m2 * 2 ^ nat (e2 - e)) e)"

fun minus_double :: "double \<Rightarrow> double \<Rightarrow> double" where
  "minus_double (Double m1 e1) (Double m2 e2) =
     (let e = min e1 e2
      in round_double (m1 * 2 ^ nat (e1 - e) - m2 * 2 ^ nat (e2 - e)) e)"

fun less_double :: "double \<Rightarrow> double \<Rightarrow> bool" where
  "less_double (Double m1 e1) (Double m2 e2) =
     (let e = min e1 e2 in m1 * 2 ^ nat (e1 - e) < m2 * 2 ^ nat (e2 - e))"

fun less_eq_double :: "double \<Rightarrow> double \<Rightarrow> bool" where
  "less_eq_double (Double m1 e1) (Double m2 e2) =
     (let e = min e1 e2 in m1 * 2 ^ nat (e1 - e) \<le> m2 * 2 ^ nat (e2 - e))"

instance ..

end

text \<open>
  The doubles written \<^verbatim>\<open>0.2\<close>, \<^verbatim>\<open>0.7\<close> and \<^verbatim>\<open>0.9\<close> in C++, which are
  \<^verbatim>\<open>0x3FC999999999999A\<close>, \<^verbatim>\<open>0x3FE6666666666666\<close> and \<^verbatim>\<open>0x3FECCCCCCCCCCCCD\<close>,
  and the double just below \<^verbatim>\<open>0.9\<close>, \<^verbatim>\<open>0x3FECCCCCCCCCCCCC\<close>, printed
  \<^verbatim>\<open>0.8999999999999999\<close>.
\<close>

definition d_0_2 :: double where
  "d_0_2 = Double 3602879701896397 (- 54)"

definition d_0_7 :: double where
  "d_0_7 = Double 3152519739159347 (- 52)"

definition d_0_9 :: double where
  "d_0_9 = Double 8106479329266893 (- 53)"

definition d_below_0_9 :: double where
  "d_below_0_9 = Double 2026619832316723 (- 51)"

text \<open>
  A timer with a deadline of 0.9 registered and an expire time of 0.9, on a loop whose
  cached time is 0.2 (\<open>ex_rounding_armed\<close>), and the same timer as \<^verbatim>\<open>invoke\<close> finds
  it when the multiplexer reports the deadline at that time (\<open>ex_rounding\<close>).
\<close>

definition ex_rounding_armed :: "double Timer" where
  "ex_rounding_armed = \<lparr>t_loop = \<lparr>now = d_0_2, calls = [Ev_timer_start],
       deadline = Some d_0_9, io = None, wake = False\<rparr>,
     t_watcher = \<lparr>after = d_0_9, repeat = 0\<rparr>, t_active = True, t_expire = d_0_9,
     t_fired = 0\<rparr>"

definition ex_rounding :: "double Timer" where
  "ex_rounding = \<lparr>t_loop = \<lparr>now = d_0_2, calls = [Ev_timer_start],
       deadline = None, io = None, wake = False\<rparr>,
     t_watcher = \<lparr>after = d_0_9, repeat = 0\<rparr>, t_active = True, t_expire = d_0_9,
     t_fired = 0\<rparr>"

section \<open>Helper lemmas\<close>

lemmas Timer_defs = Timer_start_def Timer_cancel_def Timer_set_def ev_timer_start_def
  ev_timer_stop_def ev_timer_set_def Timer_registered_def Let_def

lemmas WriteWatcher_defs = WriteWatcher_resume_def WriteWatcher_cancel_def ev_io_start_def
  ev_io_stop_def WriteWatcher_registered_def

lemmas ex_defs = ex_loop_def ex_raw_def ex_armed_def ex_idle_def ex_elapsed_def ex_due_def
  ex_early_def ex_writer_def ex_sync_def

text \<open>Every public call keeps the bound on the number of callback calls.\<close>

lemma fired_bound_call: "fired_within_armings t \<Longrightarrow> fired_within_armings (Timer_call c t)"
  by (cases c) (auto simp add: fired_within_armings_def Timer_defs split: option.splits)

lemma fired_bound_script: "fired_within_armings t \<Longrightarrow> fired_within_armings (Timer_script cs t)"
  unfolding Timer_script_def
  by (induction cs arbitrary: t) (simp_all add: fired_bound_call)

lemma fired_bound_consumed:
  "fired_within_armings t \<Longrightarrow> deadline (t_loop t) = Some d \<Longrightarrow>
   fired_within_armings (t\<lparr>t_loop := (t_loop t)\<lparr>deadline := None\<rparr>, t_active := False,
      t_fired := Suc (t_fired t)\<rparr>)"
  by (simp add: fired_within_armings_def Timer_registered_def)

lemma fired_bound_unregister:
  "fired_within_armings t \<Longrightarrow>
   fired_within_armings (t\<lparr>t_loop := (t_loop t)\<lparr>deadline := None\<rparr>\<rparr>)"
  by (simp add: fired_within_armings_def Timer_registered_def split: if_splits)

text \<open>
  The dispatch of a deadline: the registration it consumes pays for the callback call,
  and the callback's own calls keep the bound.
\<close>

lemma fired_bound_dispatch:
  "fired_within_armings t \<Longrightarrow> fired_within_armings (Timer_dispatch (Timer_script cs) t)"
proof (cases "deadline (t_loop t)")
  case None
  assume "fired_within_armings t"
  with None show ?thesis by (simp add: Timer_dispatch_def)
next
  case (Some d)
  assume inv: "fired_within_armings t"
  let ?u = "t\<lparr>t_loop := (t_loop t)\<lparr>deadline := None\<rparr>\<rparr>"
  show ?thesis
  proof (cases "t_expire t \<le> now (t_loop t)")
    case True
    have "fired_within_armings (?u\<lparr>t_active := False, t_fired := Suc (t_fired ?u)\<rparr>)"
      using fired_bound_consumed [OF inv Some] by simp
    then have "fired_within_armings
        (Timer_script cs (?u\<lparr>t_active := False, t_fired := Suc (t_fired ?u)\<rparr>))"
      by (rule fired_bound_script)
    with Some True show ?thesis by (simp add: Timer_dispatch_def Timer_invoke_def)
  next
    case False
    have "fired_within_armings (Timer_call (Call_set (t_expire ?u - now (t_loop ?u))) ?u)"
      using fired_bound_unregister [OF inv] by (rule fired_bound_call)
    with Some False show ?thesis by (simp add: Timer_dispatch_def Timer_invoke_def)
  qed
qed

lemma fired_bound_event:
  "fired_within_armings t \<Longrightarrow> fired_within_armings (Timer_event cs e t)"
proof (cases e)
  case (User c)
  assume "fired_within_armings t"
  with User show ?thesis by (simp add: fired_bound_call)
next
  case (Tick n)
  assume "fired_within_armings t"
  with Tick show ?thesis by (simp add: fired_within_armings_def Timer_registered_def)
next
  case Expired
  assume "fired_within_armings t"
  with Expired show ?thesis by (simp add: fired_bound_dispatch)
qed

lemma fired_bound_run:
  "fired_within_armings t \<Longrightarrow> fired_within_armings (Timer_run cs es t)"
  unfolding Timer_run_def
  by (induction es arbitrary: t) (simp_all add: fired_bound_event)

text \<open>A callback that only cancels leaves an idle timer as it is.\<close>

lemma only_cancel_script:
  "list_all (\<lambda>c. c = Call_cancel) cs \<Longrightarrow> \<not> t_active t \<Longrightarrow> Timer_script cs t = t"
  unfolding Timer_script_def
  by (induction cs arbitrary: t) (simp_all add: Timer_cancel_def)

text \<open>The registration follows the active flag through every public call.\<close>

lemma matches_call:
  "registration_matches t \<Longrightarrow> registration_matches (Timer_call c t)"
  by (cases c) (auto simp add: registration_matches_def Timer_defs split: option.splits)

lemma matches_script:
  "registration_matches t \<Longrightarrow> registration_matches (Timer_script cs t)"
  unfolding Timer_script_def
  by (induction cs arbitrary: t) (simp_all add: matches_call)

text \<open>
  A registered deadline implies the active flag, along every history and for every
  arithmetic on timestamps: this is the state in which \<^verbatim>\<open>set\<close> and \<^verbatim>\<open>invoke\<close> find
  a timer.
\<close>

lemma registered_active_call:
  "Timer_registered t \<longrightarrow> t_active t \<Longrightarrow>
   Timer_registered (Timer_call c t) \<longrightarrow> t_active (Timer_call c t)"
  by (cases c) (auto simp add: Timer_defs split: option.splits)

lemma registered_active_script:
  "Timer_registered t \<longrightarrow> t_active t \<Longrightarrow>
   Timer_registered (Timer_script cs t) \<longrightarrow> t_active (Timer_script cs t)"
  unfolding Timer_script_def
proof (induction cs arbitrary: t)
  case Nil
  then show ?case by simp
next
  case (Cons c cs)
  from Cons.prems have "Timer_registered (Timer_call c t) \<longrightarrow> t_active (Timer_call c t)"
    by (rule registered_active_call)
  then show ?case using Cons.IH by simp
qed

lemma registered_active_dispatch:
  assumes inv: "Timer_registered t \<longrightarrow> t_active t"
  shows "Timer_registered (Timer_dispatch (Timer_script cs) t)
     \<longrightarrow> t_active (Timer_dispatch (Timer_script cs) t)"
proof (cases "deadline (t_loop t)")
  case None
  with inv show ?thesis by (simp add: Timer_dispatch_def)
next
  case (Some d)
  let ?u = "t\<lparr>t_loop := (t_loop t)\<lparr>deadline := None\<rparr>\<rparr>"
  have unregistered: "Timer_registered ?u \<longrightarrow> t_active ?u"
    by (simp add: Timer_registered_def)
  show ?thesis
  proof (cases "t_expire t \<le> now (t_loop t)")
    case True
    let ?v = "?u\<lparr>t_active := False, t_fired := Suc (t_fired ?u)\<rparr>"
    have "Timer_registered ?v \<longrightarrow> t_active ?v"
      by (simp add: Timer_registered_def)
    then have "Timer_registered (Timer_script cs ?v) \<longrightarrow> t_active (Timer_script cs ?v)"
      by (rule registered_active_script)
    with Some True show ?thesis by (simp add: Timer_dispatch_def Timer_invoke_def)
  next
    case False
    let ?c = "Call_set (t_expire ?u - now (t_loop ?u))"
    from unregistered
    have "Timer_registered (Timer_call ?c ?u) \<longrightarrow> t_active (Timer_call ?c ?u)"
      by (rule registered_active_call)
    with Some False show ?thesis by (simp add: Timer_dispatch_def Timer_invoke_def)
  qed
qed

lemma registered_active_run:
  "Timer_registered t \<longrightarrow> t_active t \<Longrightarrow>
   Timer_registered (Timer_run cs es t) \<longrightarrow> t_active (Timer_run cs es t)"
  unfolding Timer_run_def
proof (induction es arbitrary: t)
  case Nil
  then show ?case by simp
next
  case (Cons e es)
  have "Timer_registered (Timer_event cs e t) \<longrightarrow> t_active (Timer_event cs e t)"
  proof (cases e)
    case (User c)
    with Cons.prems show ?thesis by (simp add: registered_active_call)
  next
    case (Tick n)
    with Cons.prems show ?thesis by (simp add: Timer_registered_def)
  next
    case Expired
    with Cons.prems show ?thesis by (simp add: registered_active_dispatch)
  qed
  then show ?case using Cons.IH by simp
qed

text \<open>
  A timer constructed on a loop that holds no deadline for it, with the
  \<^verbatim>\<open>initialize\<close> modelled above, starts its history with both invariants.
\<close>

lemma ctor_establishes_invariants:
  "deadline loop = None \<Longrightarrow>
   registration_matches (Timer_ctor Timer_initialize raw loop timeout)
   \<and> fired_within_armings (Timer_ctor Timer_initialize raw loop timeout)"
  by (simp add: Timer_ctor_def Timer_initialize_def registration_matches_def
      fired_within_armings_def Timer_defs)

text \<open>
  The arithmetic of \<^verbatim>\<open>invoke\<close> and \<^verbatim>\<open>set\<close> at an expire time of 0.9 and a loop time
  of 0.2: the difference rounds to 0.7, and 0.2 plus 0.7 rounds to the double below 0.9.
\<close>

lemma double_0_9_minus_0_2: "d_0_9 - d_0_2 = d_0_7"
  by (simp add: d_0_9_def d_0_2_def d_0_7_def round_double_def bits.simps canon.simps)

lemma double_0_2_plus_0_7: "d_0_2 + d_0_7 = d_below_0_9"
  by (simp add: d_0_2_def d_0_7_def d_below_0_9_def round_double_def bits.simps canon.simps)

lemma double_below_0_9_less: "d_below_0_9 < d_0_9"
  by (simp add: d_below_0_9_def d_0_9_def)

lemma double_0_2_less_0_9: "d_0_2 < d_0_9" "\<not> d_0_9 \<le> d_0_2"
  by (simp_all add: d_0_2_def d_0_9_def)

section \<open>Timer::set\<close>

text \<open>
  C1: when the timer is armed and \<open>now() + timeout\<close> is strictly earlier than the
  scheduled expire time, \<^verbatim>\<open>Timer::set(timeout)\<close> returns true and changes nothing but
  the expire field, which becomes \<open>now() + timeout\<close>: the loop (the calls issued on the
  multiplexer and the registered deadline), the watcher structure and the active flag
  are those of the state before.
\<close>

theorem Timer_set_earlier_updates_expire_only:
  assumes "t_active t" and "now (t_loop t) + timeout < t_expire t"
  shows "Timer_set timeout t = (True, t\<lparr>t_expire := now (t_loop t) + timeout\<rparr>)"
  using assms by (simp add: Timer_set_def)

theorem Timer_set_earlier_witness:
  "t_active ex_armed \<and> now (t_loop ex_armed) + 5 < t_expire ex_armed
   \<and> Timer_set 5 ex_armed = (True, ex_armed\<lparr>t_expire := 15\<rparr>)"
  using Timer_set_earlier_updates_expire_only [of ex_armed 5]
  by (simp add: ex_armed_def)

text \<open>
  C5: when the timer is not active, or \<open>now() + timeout\<close> is not strictly earlier than
  the current expire time, \<^verbatim>\<open>Timer::set(timeout)\<close> cancels (it issues the stop call if
  the timer was active), configures the watcher for the timeout as a one-shot, sets the
  expire time to \<open>now() + timeout\<close> and starts the timer: the start call is issued, the
  deadline registered with the multiplexer is the timeout, the timer is active and the
  result is true. The timer is taken in a state where a registered deadline implies the
  active flag, which every history of a timer maintains.
\<close>

theorem Timer_set_otherwise_rearms:
  assumes "\<not> (t_active t \<and> now (t_loop t) + timeout < t_expire t)"
    and "Timer_registered t \<longrightarrow> t_active t"
  shows "Timer_set timeout t =
     (True, t\<lparr>t_loop := (t_loop t)\<lparr>
                 calls := calls (t_loop t) @ (if t_active t then [Ev_timer_stop] else [])
                            @ [Ev_timer_start],
                 deadline := Some timeout\<rparr>,
              t_watcher := (t_watcher t)\<lparr>after := timeout, repeat := 0\<rparr>,
              t_active := True,
              t_expire := now (t_loop t) + timeout\<rparr>)"
  using assms
  by (auto simp add: Timer_defs)

theorem Timer_set_otherwise_witness:
  "\<not> (t_active ex_idle \<and> now (t_loop ex_idle) + 5 < t_expire ex_idle)
   \<and> \<not> Timer_registered ex_idle
   \<and> Timer_set 5 ex_idle =
       (True, \<lparr>t_loop = \<lparr>now = 10, calls = [Ev_timer_start, Ev_timer_stop, Ev_timer_start],
                  deadline = Some 5, io = None, wake = False\<rparr>,
               t_watcher = \<lparr>after = 5, repeat = 0\<rparr>, t_active = True, t_expire = 15,
               t_fired = 0\<rparr>)
   \<and> \<not> (t_active ex_armed \<and> now (t_loop ex_armed) + 25 < t_expire ex_armed)
   \<and> t_active ex_armed
   \<and> Timer_set 25 ex_armed =
       (True, \<lparr>t_loop = \<lparr>now = 10, calls = [Ev_timer_start, Ev_timer_stop, Ev_timer_start],
                  deadline = Some 25, io = None, wake = False\<rparr>,
               t_watcher = \<lparr>after = 25, repeat = 0\<rparr>, t_active = True, t_expire = 35,
               t_fired = 0\<rparr>)"
  using Timer_set_otherwise_rearms [of ex_idle 5] Timer_set_otherwise_rearms [of ex_armed 25]
  by (simp add: ex_idle_def ex_armed_def Timer_registered_def)

text \<open>
  C9: in every state and for every timeout, \<^verbatim>\<open>Timer::set(timeout)\<close> returns true and
  leaves the timer active with its expire time equal to \<open>now() + timeout\<close>, the loop's
  cached time being the same before and after.
\<close>

theorem Timer_set_always_true_and_armed:
  "fst (Timer_set timeout t)
   \<and> t_active (snd (Timer_set timeout t))
   \<and> t_expire (snd (Timer_set timeout t)) = now (t_loop t) + timeout
   \<and> now (t_loop (snd (Timer_set timeout t))) = now (t_loop t)"
  by (simp add: Timer_defs)

theorem Timer_set_always_witness:
  "fst (Timer_set 5 ex_idle) \<and> t_active (snd (Timer_set 5 ex_idle))
   \<and> t_expire (snd (Timer_set 5 ex_idle)) = 15
   \<and> fst (Timer_set 5 ex_armed) \<and> t_active (snd (Timer_set 5 ex_armed))
   \<and> t_expire (snd (Timer_set 5 ex_armed)) = 15
   \<and> fst (Timer_set 25 ex_armed) \<and> t_active (snd (Timer_set 25 ex_armed))
   \<and> t_expire (snd (Timer_set 25 ex_armed)) = 35"
  using Timer_set_always_true_and_armed [of 5 ex_idle]
    Timer_set_always_true_and_armed [of 5 ex_armed]
    Timer_set_always_true_and_armed [of 25 ex_armed]
  by (simp add: ex_idle_def ex_armed_def)

section \<open>Timer::invoke\<close>

text \<open>
  With exact arithmetic on timestamps \<^verbatim>\<open>Timer::invoke()\<close> does what its comments
  say. If \<open>expire \<le> now()\<close> it calls the user callback, on the timer with its active
  flag cleared. If \<open>now() < expire\<close> it does not call the callback: it does what
  \<^verbatim>\<open>set(expire - now())\<close> does, and since \<open>now + (expire - now)\<close> is \<open>expire\<close>, not
  less, \<^verbatim>\<open>set\<close> takes its second branch: it stops the timer if it was active,
  configures the watcher for the remaining \<open>expire - now()\<close>, keeps the expire time and
  starts the timer again.
\<close>

lemma Timer_invoke_exact_rearms:
  fixes t :: "'t::linordered_ab_group_add Timer"
  shows "(t_expire t \<le> now (t_loop t) \<longrightarrow>
            Timer_invoke cb t = cb (t\<lparr>t_active := False, t_fired := Suc (t_fired t)\<rparr>))
       \<and> (now (t_loop t) < t_expire t \<longrightarrow>
            Timer_invoke cb t = snd (Timer_set (t_expire t - now (t_loop t)) t)
          \<and> t_fired (Timer_invoke cb t) = t_fired t
          \<and> t_active (Timer_invoke cb t)
          \<and> t_expire (Timer_invoke cb t) = t_expire t
          \<and> t_watcher (Timer_invoke cb t) =
              (t_watcher t)\<lparr>after := t_expire t - now (t_loop t), repeat := 0\<rparr>
          \<and> calls (t_loop (Timer_invoke cb t)) =
              calls (t_loop t) @ (if t_active t then [Ev_timer_stop] else []) @ [Ev_timer_start]
          \<and> ((Timer_registered t \<longrightarrow> t_active t) \<longrightarrow>
               deadline (t_loop (Timer_invoke cb t)) = Some (t_expire t - now (t_loop t))))"
  by (auto simp add: Timer_invoke_def Timer_defs)

text \<open>
  C2: \<^verbatim>\<open>invoke()\<close> is to fire the callback only if \<open>expire \<le> now()\<close> and otherwise to
  re-arm the timer for the remaining \<open>expire - now()\<close>. With doubles the code does not
  re-arm at an expire time of 0.9 and a loop time of 0.2. There \<open>now() < expire\<close>, the
  callback is not called and \<^verbatim>\<open>set(0.7)\<close> runs; the timer is active and
  \<open>0.2 + 0.7\<close> rounds to \<open>0.8999999999999999 < 0.9\<close>, so \<^verbatim>\<open>set\<close> takes its first
  branch and only lowers the expire time. No call is issued on the multiplexer, the
  watcher keeps its old timeout and no deadline is registered: the timer stays active
  and the multiplexer never reports it again, whatever the callback is.
\<close>

theorem Timer_invoke_rounding_no_rearm:
  "now (t_loop ex_rounding) < t_expire ex_rounding
   \<and> Timer_invoke cb ex_rounding = ex_rounding\<lparr>t_expire := d_below_0_9\<rparr>
   \<and> t_fired (Timer_invoke cb ex_rounding) = t_fired ex_rounding
   \<and> t_active (Timer_invoke cb ex_rounding)
   \<and> calls (t_loop (Timer_invoke cb ex_rounding)) = calls (t_loop ex_rounding)
   \<and> t_watcher (Timer_invoke cb ex_rounding) = t_watcher ex_rounding
   \<and> deadline (t_loop (Timer_invoke cb ex_rounding)) = None
   \<and> Timer_dispatch cb ex_rounding_armed = ex_rounding\<lparr>t_expire := d_below_0_9\<rparr>
   \<and> Timer_dispatch cb (ex_rounding\<lparr>t_expire := d_below_0_9\<rparr>)
       = ex_rounding\<lparr>t_expire := d_below_0_9\<rparr>"
proof -
  have early: "now (t_loop ex_rounding) < t_expire ex_rounding"
    "\<not> t_expire ex_rounding \<le> now (t_loop ex_rounding)"
    by (simp_all add: ex_rounding_def double_0_2_less_0_9)
  have first_branch: "t_active ex_rounding
      \<and> now (t_loop ex_rounding) + (t_expire ex_rounding - now (t_loop ex_rounding))
          < t_expire ex_rounding"
    by (simp add: ex_rounding_def double_0_9_minus_0_2 double_0_2_plus_0_7
        double_below_0_9_less)
  have lowered: "now (t_loop ex_rounding) + (t_expire ex_rounding - now (t_loop ex_rounding))
      = d_below_0_9"
    by (simp add: ex_rounding_def double_0_9_minus_0_2 double_0_2_plus_0_7)
  have invoke: "Timer_invoke cb ex_rounding = ex_rounding\<lparr>t_expire := d_below_0_9\<rparr>"
    using early first_branch lowered by (simp add: Timer_invoke_def Timer_set_def)
  have consumed: "ex_rounding_armed\<lparr>t_loop := (t_loop ex_rounding_armed)\<lparr>deadline := None\<rparr>\<rparr>
      = ex_rounding"
    by (simp add: ex_rounding_armed_def ex_rounding_def)
  have reported: "Timer_dispatch cb ex_rounding_armed = Timer_invoke cb ex_rounding"
    using consumed by (simp add: Timer_dispatch_def ex_rounding_armed_def)
  have silent: "Timer_dispatch cb (ex_rounding\<lparr>t_expire := d_below_0_9\<rparr>)
      = ex_rounding\<lparr>t_expire := d_below_0_9\<rparr>"
    by (simp add: Timer_dispatch_def ex_rounding_def)
  from early(1) invoke reported silent show ?thesis
    by (simp add: ex_rounding_def)
qed

section \<open>The Timer's state machine\<close>

text \<open>
  C4: the timer moves between Idle and Armed. \<^verbatim>\<open>start()\<close> leaves it Armed and
  \<^verbatim>\<open>cancel()\<close> leaves it Idle. When \<^verbatim>\<open>invoke()\<close> finds \<open>expire \<le> now()\<close>, the
  callback runs on the timer with the active flag already cleared, that is on an Idle
  timer. When the multiplexer reports the deadline of such a timer and the callback does
  not restart it, the callback has been called once more, and the timer is Idle and no
  longer registered; a timer that is not registered is not called again. Over every
  history (user calls, time updates, reported deadlines, with a callback that is any
  sequence of calls on the timer), the callback is called at most once per registration
  of a deadline.
\<close>

theorem Timer_fires_once_per_arming:
  fixes t :: "'t::{plus,minus,ord,zero} Timer"
  shows "Timer_state (snd (Timer_start t)) = Armed
   \<and> Timer_state (snd (Timer_cancel t)) = Idle
   \<and> (t_expire t \<le> now (t_loop t) \<longrightarrow>
        Timer_invoke cb t = cb (t\<lparr>t_active := False, t_fired := Suc (t_fired t)\<rparr>)
      \<and> Timer_state (t\<lparr>t_active := False, t_fired := Suc (t_fired t)\<rparr>) = Idle)
   \<and> (Timer_registered t \<and> t_expire t \<le> now (t_loop t)
        \<and> list_all (\<lambda>c. c = Call_cancel) cs \<longrightarrow>
        Timer_state (Timer_event cs Expired t) = Idle
      \<and> \<not> Timer_registered (Timer_event cs Expired t)
      \<and> t_fired (Timer_event cs Expired t) = Suc (t_fired t))
   \<and> (\<not> Timer_registered t \<longrightarrow> Timer_event cs Expired t = t)
   \<and> (fired_within_armings t \<longrightarrow>
        fired_within_armings (Timer_run cs es t)
      \<and> t_fired (Timer_run cs es t)
          \<le> count_list (calls (t_loop (Timer_run cs es t))) Ev_timer_start)"
proof -
  have machine: "Timer_state (snd (Timer_start t)) = Armed"
    "Timer_state (snd (Timer_cancel t)) = Idle"
    by (simp_all add: Timer_state_def Timer_start_def Timer_cancel_def)
  have fire: "t_expire t \<le> now (t_loop t) \<longrightarrow>
        Timer_invoke cb t = cb (t\<lparr>t_active := False, t_fired := Suc (t_fired t)\<rparr>)
      \<and> Timer_state (t\<lparr>t_active := False, t_fired := Suc (t_fired t)\<rparr>) = Idle"
    by (simp add: Timer_invoke_def Timer_state_def)
  have once: "Timer_state (Timer_event cs Expired t) = Idle
      \<and> \<not> Timer_registered (Timer_event cs Expired t)
      \<and> t_fired (Timer_event cs Expired t) = Suc (t_fired t)"
    if reg: "Timer_registered t" and due: "t_expire t \<le> now (t_loop t)"
      and cancels: "list_all (\<lambda>c. c = Call_cancel) cs"
  proof -
    let ?u = "t\<lparr>t_loop := (t_loop t)\<lparr>deadline := None\<rparr>, t_active := False,
      t_fired := Suc (t_fired t)\<rparr>"
    from reg obtain d where d: "deadline (t_loop t) = Some d"
      by (auto simp add: Timer_registered_def)
    have "Timer_script cs ?u = ?u"
      using cancels by (rule only_cancel_script) simp
    with d due have "Timer_event cs Expired t = ?u"
      by (simp add: Timer_dispatch_def Timer_invoke_def)
    then show ?thesis
      by (simp add: Timer_state_def Timer_registered_def)
  qed
  have quiet: "\<not> Timer_registered t \<longrightarrow> Timer_event cs Expired t = t"
    by (simp add: Timer_registered_def Timer_dispatch_def)
  have bound: "fired_within_armings (Timer_run cs es t)
      \<and> t_fired (Timer_run cs es t)
          \<le> count_list (calls (t_loop (Timer_run cs es t))) Ev_timer_start"
    if inv: "fired_within_armings t"
  proof -
    have "fired_within_armings (Timer_run cs es t)"
      using inv by (rule fired_bound_run)
    then show ?thesis
      by (simp add: fired_within_armings_def split: if_splits)
  qed
  from machine fire once quiet bound show ?thesis by blast
qed

theorem Timer_fires_once_witness:
  "Timer_registered ex_elapsed \<and> t_expire ex_elapsed \<le> now (t_loop ex_elapsed)
   \<and> list_all (\<lambda>c. c = Call_cancel) [Call_cancel :: real TimerCall]
   \<and> Timer_state (Timer_event [Call_cancel] Expired ex_elapsed) = Idle
   \<and> \<not> Timer_registered (Timer_event [Call_cancel] Expired ex_elapsed)
   \<and> t_fired (Timer_event [Call_cancel] Expired ex_elapsed) = 1
   \<and> Timer_invoke (Timer_script [Call_cancel]) ex_due = ex_due\<lparr>t_active := False, t_fired := 1\<rparr>
   \<and> \<not> Timer_registered ex_idle \<and> Timer_event [] Expired ex_idle = ex_idle
   \<and> fired_within_armings ex_armed
   \<and> t_fired (Timer_run [] [Tick 31, Expired, Expired, User Call_start, Tick 60, Expired]
        ex_armed) = 2
   \<and> count_list (calls (t_loop
        (Timer_run [] [Tick 31, Expired, Expired, User Call_start, Tick 60, Expired] ex_armed)))
        Ev_timer_start = 2"
  using Timer_fires_once_per_arming [of ex_elapsed "\<lambda>x. x" "[Call_cancel]" "[]"]
    Timer_fires_once_per_arming [of ex_due "Timer_script [Call_cancel]" "[]" "[]"]
    Timer_fires_once_per_arming [of ex_idle "\<lambda>x. x" "[]" "[]"]
    Timer_fires_once_per_arming [of ex_armed "\<lambda>x. x" "[]"
      "[Tick 31, Expired, Expired, User Call_start, Tick 60, Expired]"]
  by (simp add: ex_defs Timer_defs Timer_state_def Timer_dispatch_def Timer_invoke_def
      Timer_script_def Timer_run_def fired_within_armings_def)

section \<open>start, resume and cancel\<close>

text \<open>
  C3: \<^verbatim>\<open>Timer::start\<close>, \<^verbatim>\<open>Timer::cancel\<close>, \<^verbatim>\<open>WriteWatcher::resume\<close> and
  \<^verbatim>\<open>WriteWatcher::cancel\<close> return true exactly when the active flag was not yet in the
  target state, and leave it in the target state; a second call in the same direction
  returns false and leaves the whole state (active flag, expire time, loop and
  registration) as the first call left it. Each is a total function with a boolean
  result: there is no fault to signal.
\<close>

theorem start_resume_cancel_idempotent:
  "(fst (Timer_start t) = (\<not> t_active t) \<and> t_active (snd (Timer_start t))
      \<and> Timer_start (snd (Timer_start t)) = (False, snd (Timer_start t)))
   \<and> (fst (Timer_cancel t) = t_active t \<and> \<not> t_active (snd (Timer_cancel t))
      \<and> Timer_cancel (snd (Timer_cancel t)) = (False, snd (Timer_cancel t)))
   \<and> (fst (WriteWatcher_resume w) = (\<not> w_active w) \<and> w_active (snd (WriteWatcher_resume w))
      \<and> WriteWatcher_resume (snd (WriteWatcher_resume w))
          = (False, snd (WriteWatcher_resume w)))
   \<and> (fst (WriteWatcher_cancel w) = w_active w \<and> \<not> w_active (snd (WriteWatcher_cancel w))
      \<and> WriteWatcher_cancel (snd (WriteWatcher_cancel w))
          = (False, snd (WriteWatcher_cancel w)))"
  by (simp add: Timer_start_def Timer_cancel_def WriteWatcher_resume_def
      WriteWatcher_cancel_def)

theorem start_resume_cancel_witness:
  "Timer_start ex_idle =
     (True, ex_idle\<lparr>t_loop := (t_loop ex_idle)\<lparr>
        calls := [Ev_timer_start, Ev_timer_stop, Ev_timer_start], deadline := Some 20\<rparr>,
        t_active := True\<rparr>)
   \<and> Timer_start (snd (Timer_start ex_idle)) = (False, snd (Timer_start ex_idle))
   \<and> Timer_cancel ex_armed = (True, ex_idle)
   \<and> Timer_cancel ex_idle = (False, ex_idle)
   \<and> fst (WriteWatcher_cancel ex_writer)
   \<and> WriteWatcher_cancel (snd (WriteWatcher_cancel ex_writer))
       = (False, snd (WriteWatcher_cancel ex_writer))
   \<and> WriteWatcher_resume ex_writer = (False, ex_writer)
   \<and> WriteWatcher_resume (snd (WriteWatcher_cancel ex_writer)) =
       (True, ex_writer\<lparr>w_loop := (w_loop ex_writer)\<lparr>
          calls := [Ev_io_start, Ev_io_stop, Ev_io_start]\<rparr>\<rparr>)"
  using start_resume_cancel_idempotent [of ex_idle ex_writer]
    start_resume_cancel_idempotent [of ex_armed "snd (WriteWatcher_cancel ex_writer)"]
  by (simp add: ex_idle_def ex_armed_def ex_writer_def Timer_defs WriteWatcher_defs)

section \<open>Construction and destruction\<close>

text \<open>
  C6: the constructor of \<^verbatim>\<open>Timer\<close> arms the timer: for every \<^verbatim>\<open>initialize\<close> that
  leaves the fresh object inactive and unregistered, the constructed timer is active, the
  start call is the last call issued and the deadline registered is the timeout that
  \<^verbatim>\<open>initialize\<close> configured. The destructors of \<^verbatim>\<open>Timer\<close> and \<^verbatim>\<open>WriteWatcher\<close> do
  what \<^verbatim>\<open>cancel()\<close> does: the object is inactive afterwards, the stop call is issued
  if it was active, and an active watcher is no longer registered.
\<close>

theorem construction_arms_destruction_cancels:
  assumes "\<not> t_active (initialize timeout (raw\<lparr>t_loop := loop, t_active := False,
               t_fired := 0\<rparr>))"
    and "deadline (t_loop (initialize timeout (raw\<lparr>t_loop := loop, t_active := False,
               t_fired := 0\<rparr>))) = None"
  shows "t_active (Timer_ctor initialize raw loop timeout)
   \<and> calls (t_loop (Timer_ctor initialize raw loop timeout))
       = calls (t_loop (initialize timeout (raw\<lparr>t_loop := loop, t_active := False,
               t_fired := 0\<rparr>))) @ [Ev_timer_start]
   \<and> deadline (t_loop (Timer_ctor initialize raw loop timeout))
       = Some (after (t_watcher (initialize timeout (raw\<lparr>t_loop := loop, t_active := False,
               t_fired := 0\<rparr>))))
   \<and> Timer_dtor t = snd (Timer_cancel t)
   \<and> \<not> t_active (Timer_dtor t)
   \<and> calls (t_loop (Timer_dtor t))
       = calls (t_loop t) @ (if t_active t then [Ev_timer_stop] else [])
   \<and> (t_active t \<longrightarrow> \<not> Timer_registered (Timer_dtor t))
   \<and> WriteWatcher_dtor w = snd (WriteWatcher_cancel w)
   \<and> \<not> w_active (WriteWatcher_dtor w)
   \<and> calls (w_loop (WriteWatcher_dtor w))
       = calls (w_loop w) @ (if w_active w then [Ev_io_stop] else [])
   \<and> (w_active w \<longrightarrow> \<not> WriteWatcher_registered (WriteWatcher_dtor w))"
  using assms
  by (simp add: Timer_ctor_def Timer_dtor_def WriteWatcher_dtor_def Timer_defs
      WriteWatcher_defs)

theorem construction_destruction_witness:
  "\<not> t_active (Timer_initialize 20 (ex_raw\<lparr>t_loop := ex_loop, t_active := False,
        t_fired := 0\<rparr>))
   \<and> deadline (t_loop (Timer_initialize 20 (ex_raw\<lparr>t_loop := ex_loop, t_active := False,
        t_fired := 0\<rparr>))) = None
   \<and> Timer_ctor Timer_initialize ex_raw ex_loop 20 = ex_armed
   \<and> t_active ex_armed
   \<and> deadline (t_loop ex_armed) = Some 20
   \<and> Timer_dtor ex_armed = ex_idle
   \<and> \<not> t_active ex_idle \<and> \<not> Timer_registered ex_idle
   \<and> w_active ex_writer
   \<and> \<not> w_active (WriteWatcher_dtor ex_writer)
   \<and> \<not> WriteWatcher_registered (WriteWatcher_dtor ex_writer)
   \<and> calls (w_loop (WriteWatcher_dtor ex_writer)) = [Ev_io_start, Ev_io_stop]"
  using construction_arms_destruction_cancels
    [where initialize = Timer_initialize and timeout = 20 and raw = ex_raw
      and loop = ex_loop and t = ex_armed and w = ex_writer]
  by (simp add: ex_defs Timer_initialize_def Timer_ctor_def Timer_dtor_def
      WriteWatcher_dtor_def Timer_defs WriteWatcher_defs)

section \<open>WriteWatcher::invoke\<close>

text \<open>
  C7: \<^verbatim>\<open>WriteWatcher::invoke()\<close> hands the watcher to the user callback as it is and does
  nothing else: its effect is the callback's effect on the unchanged state, and with a
  callback that leaves the watcher alone every field (the active flag, the loop with the
  registered interest, the watcher structure) is as before.
\<close>

theorem WriteWatcher_invoke_forwards:
  "WriteWatcher_invoke cb w = cb w
   \<and> WriteWatcher_invoke (\<lambda>x. x) w = w"
  by (simp add: WriteWatcher_invoke_def)

theorem WriteWatcher_invoke_witness:
  "WriteWatcher_invoke (\<lambda>x. x) ex_writer = ex_writer
   \<and> WriteWatcher_invoke (\<lambda>x. snd (WriteWatcher_cancel x)) ex_writer
       = snd (WriteWatcher_cancel ex_writer)
   \<and> w_active (WriteWatcher_invoke (\<lambda>x. x) ex_writer)
   \<and> WriteWatcher_registered (WriteWatcher_invoke (\<lambda>x. x) ex_writer)"
  using WriteWatcher_invoke_forwards [of "\<lambda>x. x" ex_writer]
    WriteWatcher_invoke_forwards [of "\<lambda>x. snd (WriteWatcher_cancel x)" ex_writer]
  by (simp add: ex_writer_def WriteWatcher_registered_def)

section \<open>Synchronizer\<close>

text \<open>
  C8: the call operator of \<^verbatim>\<open>Synchronizer\<close> is \<^verbatim>\<open>synchronize()\<close>: in every state
  both return the same result, true, and leave the same state, in which the wake-up has
  been sent to the multiplexer.
\<close>

theorem Synchronizer_call_is_synchronize:
  "Synchronizer_call s = Synchronizer_synchronize s
   \<and> fst (Synchronizer_call s)
   \<and> calls (s_loop (snd (Synchronizer_call s))) = calls (s_loop s) @ [Ev_async_send]
   \<and> wake (s_loop (snd (Synchronizer_call s)))"
  by (simp add: Synchronizer_call_def Synchronizer_synchronize_def ev_async_send_def)

theorem Synchronizer_call_witness:
  "Synchronizer_call ex_sync = Synchronizer_synchronize ex_sync
   \<and> Synchronizer_call ex_sync =
       (True, \<lparr>s_loop = \<lparr>now = 10, calls = [Ev_async_send], deadline = None, io = None,
          wake = True\<rparr>\<rparr>)
   \<and> calls (s_loop (snd (Synchronizer_call (snd (Synchronizer_call ex_sync)))))
       = [Ev_async_send, Ev_async_send]
   \<and> wake (s_loop (snd (Synchronizer_call (snd (Synchronizer_call ex_sync)))))"
  using Synchronizer_call_is_synchronize [of ex_sync]
    Synchronizer_call_is_synchronize [of "snd (Synchronizer_call ex_sync)"]
  by (simp add: ex_sync_def ex_loop_def Synchronizer_call_def Synchronizer_synchronize_def
      ev_async_send_def)

section \<open>Registration and the active flag\<close>

text \<open>
  C10: for \<^verbatim>\<open>Timer\<close> (\<^verbatim>\<open>start\<close>, \<^verbatim>\<open>cancel\<close>, \<^verbatim>\<open>set\<close>) and \<^verbatim>\<open>WriteWatcher\<close>
  (\<^verbatim>\<open>resume\<close>, \<^verbatim>\<open>cancel\<close>), if the watcher is registered with the multiplexer
  exactly when its active flag is set, the same holds after the operation. The start
  call is issued exactly when the operation takes the flag from false to true and the
  stop call exactly when it takes the flag from true to false; \<^verbatim>\<open>set\<close> issues nothing
  on its first branch, and on its second the stop call of \<^verbatim>\<open>cancel()\<close> if the timer
  was active, followed by the start call of \<^verbatim>\<open>start()\<close> on the then inactive timer.
  Along every history of a timer, the multiplexer's reports of the deadline (which run
  \<^verbatim>\<open>invoke\<close>) included, and for every arithmetic on timestamps, a registered deadline
  implies the active flag.
\<close>

theorem registration_follows_active_flag:
  fixes t :: "'a::{plus,ord,zero} Timer"
    and w :: "'b WriteWatcher"
    and h :: "'c::{plus,minus,ord,zero} Timer"
  shows "(registration_matches t \<longrightarrow>
          registration_matches (snd (Timer_start t))
        \<and> registration_matches (snd (Timer_cancel t))
        \<and> registration_matches (snd (Timer_set timeout t)))
   \<and> (writer_registration_matches w \<longrightarrow>
          writer_registration_matches (snd (WriteWatcher_resume w))
        \<and> writer_registration_matches (snd (WriteWatcher_cancel w)))
   \<and> ((Timer_registered h \<longrightarrow> t_active h) \<longrightarrow>
          (Timer_registered (Timer_run cs es h) \<longrightarrow> t_active (Timer_run cs es h)))
   \<and> calls (t_loop (snd (Timer_start t)))
       = calls (t_loop t)
         @ (if \<not> t_active t \<and> t_active (snd (Timer_start t)) then [Ev_timer_start] else [])
   \<and> calls (t_loop (snd (Timer_cancel t)))
       = calls (t_loop t)
         @ (if t_active t \<and> \<not> t_active (snd (Timer_cancel t)) then [Ev_timer_stop] else [])
   \<and> calls (t_loop (snd (Timer_set timeout t)))
       = calls (t_loop t)
         @ (if t_active t \<and> now (t_loop t) + timeout < t_expire t then []
            else (if t_active t then [Ev_timer_stop] else []) @ [Ev_timer_start])
   \<and> calls (w_loop (snd (WriteWatcher_resume w)))
       = calls (w_loop w)
         @ (if \<not> w_active w \<and> w_active (snd (WriteWatcher_resume w)) then [Ev_io_start]
            else [])
   \<and> calls (w_loop (snd (WriteWatcher_cancel w)))
       = calls (w_loop w)
         @ (if w_active w \<and> \<not> w_active (snd (WriteWatcher_cancel w)) then [Ev_io_stop]
            else [])"
proof -
  have timer: "registration_matches t \<longrightarrow>
          registration_matches (snd (Timer_start t))
        \<and> registration_matches (snd (Timer_cancel t))
        \<and> registration_matches (snd (Timer_set timeout t))"
    using matches_call [of t Call_start] matches_call [of t Call_cancel]
      matches_call [of t "Call_set timeout"]
    by simp
  have writer: "writer_registration_matches w \<longrightarrow>
          writer_registration_matches (snd (WriteWatcher_resume w))
        \<and> writer_registration_matches (snd (WriteWatcher_cancel w))"
    by (auto simp add: writer_registration_matches_def WriteWatcher_defs split: option.splits)
  have history: "(Timer_registered h \<longrightarrow> t_active h) \<longrightarrow>
          (Timer_registered (Timer_run cs es h) \<longrightarrow> t_active (Timer_run cs es h))"
    using registered_active_run [of h cs es] by blast
  have timer_calls:
    "calls (t_loop (snd (Timer_start t)))
       = calls (t_loop t)
         @ (if \<not> t_active t \<and> t_active (snd (Timer_start t)) then [Ev_timer_start] else [])"
    "calls (t_loop (snd (Timer_cancel t)))
       = calls (t_loop t)
         @ (if t_active t \<and> \<not> t_active (snd (Timer_cancel t)) then [Ev_timer_stop] else [])"
    "calls (t_loop (snd (Timer_set timeout t)))
       = calls (t_loop t)
         @ (if t_active t \<and> now (t_loop t) + timeout < t_expire t then []
            else (if t_active t then [Ev_timer_stop] else []) @ [Ev_timer_start])"
    by (simp_all add: Timer_defs)
  have writer_calls:
    "calls (w_loop (snd (WriteWatcher_resume w)))
       = calls (w_loop w)
         @ (if \<not> w_active w \<and> w_active (snd (WriteWatcher_resume w)) then [Ev_io_start]
            else [])"
    "calls (w_loop (snd (WriteWatcher_cancel w)))
       = calls (w_loop w)
         @ (if w_active w \<and> \<not> w_active (snd (WriteWatcher_cancel w)) then [Ev_io_stop]
            else [])"
    by (simp_all add: WriteWatcher_defs)
  from timer writer history timer_calls writer_calls show ?thesis by blast
qed

theorem registration_follows_witness:
  "registration_matches ex_armed
   \<and> registration_matches (snd (Timer_start ex_armed))
   \<and> registration_matches (snd (Timer_cancel ex_armed))
   \<and> registration_matches (snd (Timer_set 25 ex_armed))
   \<and> registration_matches (snd (Timer_set 5 ex_armed))
   \<and> writer_registration_matches ex_writer
   \<and> writer_registration_matches (snd (WriteWatcher_resume ex_writer))
   \<and> writer_registration_matches (snd (WriteWatcher_cancel ex_writer))
   \<and> Timer_registered ex_armed \<and> t_active ex_armed
   \<and> Timer_registered (Timer_run [] [Tick 25, Expired] ex_armed)
   \<and> t_active (Timer_run [] [Tick 25, Expired] ex_armed)
   \<and> calls (t_loop (Timer_run [] [Tick 25, Expired] ex_armed))
       = [Ev_timer_start, Ev_timer_stop, Ev_timer_start]
   \<and> \<not> Timer_registered (Timer_run [] [Tick 25, Expired, Tick 31, Expired] ex_armed)
   \<and> Timer_registered (Timer_run [Call_set 7] [User (Call_set 5), Tick 20, Expired] ex_armed)
   \<and> t_active (Timer_run [Call_set 7] [User (Call_set 5), Tick 20, Expired] ex_armed)
   \<and> calls (t_loop (Timer_run [Call_set 7] [User (Call_set 5), Tick 20, Expired] ex_armed))
       = [Ev_timer_start, Ev_timer_start]"
  using registration_follows_active_flag [where t = ex_armed and timeout = 25
      and w = ex_writer and h = ex_armed and cs = "[]"
      and es = "[Tick 25, Expired]"]
    registration_follows_active_flag [where t = ex_armed and timeout = 5
      and w = ex_writer and h = ex_armed and cs = "[]"
      and es = "[Tick 25, Expired, Tick 31, Expired]"]
    registration_follows_active_flag [where t = ex_armed and timeout = 5
      and w = ex_writer and h = ex_armed and cs = "[Call_set 7]"
      and es = "[User (Call_set 5), Tick 20, Expired]"]
  by (simp add: ex_defs registration_matches_def writer_registration_matches_def Timer_defs
      WriteWatcher_defs Timer_run_def Timer_script_def Timer_dispatch_def Timer_invoke_def)

end
